theory Spec2Isabelle
  imports Main "HOL-Library.AList"
begin

section \<open>Data model of \<open>apns2/client.py\<close>\<close>

text \<open>
  \<open>NotificationPriority\<close> is an \<open>Enum\<close> with the two members \<open>Immediate = '10'\<close> and
  \<open>Delayed = '5'\<close>; \<open>priority_value\<close> is the member's \<open>.value\<close>.
\<close>

datatype NotificationPriority = Immediate | Delayed

fun priority_value :: "NotificationPriority \<Rightarrow> string" where
  "priority_value Immediate = ''10''"
| "priority_value Delayed = ''5''"

definition DEFAULT_APNS_PRIORITY :: NotificationPriority where
  "DEFAULT_APNS_PRIORITY = Immediate"

definition CONCURRENT_STREAMS_SAFETY_MAXIMUM :: int where
  "CONCURRENT_STREAMS_SAFETY_MAXIMUM = 1000"

definition MAX_CONNECTION_RETRIES :: nat where
  "MAX_CONNECTION_RETRIES = 3"

text \<open>
  The values \<open>json.loads\<close> produces. \<open>JFloat\<close> carries the literal's text: no function
  of the client computes with a float.
\<close>

datatype json =
    JNull
  | JBool bool
  | JInt int
  | JFloat string
  | JString string
  | JArray "json list"
  | JObject "(string \<times> json) list"

text \<open>
  The exceptions the client can raise or let through. \<open>ConnectionFailed\<close> is raised by
  \<open>connect\<close>; \<open>IndexError\<close>, \<open>KeyError\<close>, \<open>TypeError\<close> and \<open>AttributeError\<close> are the
  interpreter's own; \<open>TransportError\<close> stands for whatever the HTTP/2 library raises and
  \<open>CodecError\<close> for what \<open>json\<close> and \<open>bytes.decode\<close> raise.
\<close>

datatype error =
    ConnectionFailed
  | NotificationRejected json
  | IndexError
  | KeyError string
  | TypeError
  | AttributeError
  | TransportError string
  | CodecError string

text \<open>
  Modelled from the spec: \<open>exception_class_for_reason\<close> lives in \<open>apns2/errors.py\<close>, which
  is not among the sources. The spec describes its result as a typed error that carries
  the gateway's reason (\<open>NotificationRejected(reason_code)\<close>).
\<close>

definition exception_class_for_reason :: "json \<Rightarrow> error" where
  "exception_class_for_reason reason = NotificationRejected reason"

text \<open>The two named tuples of the module.\<close>

record RequestStream =
  stream_id :: nat
  rs_token :: string

record 'p Notification =
  token :: string
  payload :: 'p

text \<open>
  The two private attributes of \<open>APNsClient\<close> that its methods assign. Both are \<open>None\<close>
  after \<open>__init__\<close>.
\<close>

record client =
  max_concurrent_streams :: "int option"
  previous_server_max_concurrent_streams :: "int option"

definition init_client :: client where
  "init_client = \<lparr>max_concurrent_streams = None, previous_server_max_concurrent_streams = None\<rparr>"

section \<open>The external collaborators\<close>

text \<open>
  What \<open>HTTP20Connection.request\<close> receives: the method, the URL, the body and the
  headers. The headers are a Python \<open>dict\<close>; the association list keeps its insertion
  order and \<open>AList.update\<close> is the dictionary's item assignment.
\<close>

record request =
  req_method :: string
  req_url :: string
  req_body :: string
  req_headers :: "(string \<times> string) list"

text \<open>
  What \<open>get_response\<close> yields: the status and the outcome of \<open>response.read()\<close>, the
  body's bytes or the text of the exception the read raises.
\<close>

record response =
  status :: int
  read :: "string + string"

text \<open>
  The connection and the two library modules, as the client uses them. \<open>'s\<close> is the
  state of the connection and of the peer behind it; every call on the connection takes
  that state and returns the next one, so the peer may change between any two calls.
  A call that raises returns the exception's text on the left.
  \<^item> \<open>conn_connect\<close>: \<open>self.__connection.connect()\<close>;
  \<^item> \<open>conn_request\<close>: \<open>self.__connection.request('POST', url, json_payload, headers)\<close>,
    the stream id;
  \<^item> \<open>conn_get_response\<close>: \<open>self.__connection.get_response(stream_id)\<close>;
  \<^item> \<open>conn_remote_max_concurrent_streams\<close>: the read of
    \<open>connection.remote_settings.max_concurrent_streams\<close> under the connection's lock;
  \<^item> \<open>json_dumps\<close>: \<open>json.dumps(notification.dict(), cls=..., ensure_ascii=False,
    separators=(',', ':')).encode('utf-8')\<close>;
  \<^item> \<open>decode_utf8\<close>: \<open>bytes.decode('utf-8')\<close>;
  \<^item> \<open>json_loads\<close>: \<open>json.loads\<close>.
\<close>

record ('s, 'p) env =
  conn_connect :: "'s \<Rightarrow> string option \<times> 's"
  conn_request :: "request \<Rightarrow> 's \<Rightarrow> (string + nat) \<times> 's"
  conn_get_response :: "nat \<Rightarrow> 's \<Rightarrow> (string + response) \<times> 's"
  conn_remote_max_concurrent_streams :: "'s \<Rightarrow> int \<times> 's"
  json_dumps :: "'p \<Rightarrow> string + string"
  decode_utf8 :: "string \<Rightarrow> string + string"
  json_loads :: "string \<Rightarrow> string + json"

section \<open>Encoding a notification\<close>

text \<open>\<open>'%d' % expiration\<close> for an integer: the decimal digits, with a minus sign.\<close>

function str_nat :: "nat \<Rightarrow> string" where
  "str_nat n =
     (if n < 10 then [char_of (48 + n)]
      else str_nat (n div 10) @ [char_of (48 + n mod 10)])"
  by pat_completeness auto
termination
  by (relation "measure id") auto

declare str_nat.simps [simp del]

definition format_d :: "int \<Rightarrow> string" where
  "format_d i = (if i < 0 then CHR ''-'' # str_nat (nat (- i)) else str_nat (nat i))"

text \<open>Lines 49 to 54 of \<open>send_notification_async\<close>: the headers.\<close>

definition request_headers ::
  "string \<Rightarrow> NotificationPriority \<Rightarrow> int option \<Rightarrow> (string \<times> string) list" where
  "request_headers topic priority expiration =
     (let headers = [(''apns-topic'', topic)];
          headers = (if priority \<noteq> DEFAULT_APNS_PRIORITY
                     then AList.update ''apns-priority'' (priority_value priority) headers
                     else headers);
          headers = (case expiration of
                       None \<Rightarrow> headers
                     | Some ex \<Rightarrow> AList.update ''apns-expiration'' (format_d ex) headers)
      in headers)"

text \<open>
  \<open>send_notification_async\<close>, lines 44 to 58: serialise the payload, build the headers
  and the URL, and open a stream with \<open>request\<close>. The result is the stream id.
\<close>

definition send_notification_async ::
  "('s, 'p) env \<Rightarrow> string \<Rightarrow> 'p \<Rightarrow> string \<Rightarrow> NotificationPriority \<Rightarrow> int option \<Rightarrow> 's
     \<Rightarrow> (error + nat) \<times> 's" where
  "send_notification_async e token_hex notification topic priority expiration w =
     (case json_dumps e notification of
        Inl msg \<Rightarrow> (Inl (CodecError msg), w)
      | Inr json_payload \<Rightarrow>
          (let headers = request_headers topic priority expiration;
               url = ''/3/device/'' @ token_hex
           in case conn_request e
                     \<lparr>req_method = ''POST'', req_url = url, req_body = json_payload,
                      req_headers = headers\<rparr> w of
                (Inl msg, w') \<Rightarrow> (Inl (TransportError msg), w')
              | (Inr sid, w') \<Rightarrow> (Inr sid, w')))"

section \<open>Interpreting a response\<close>

text \<open>
  \<open>data['reason']\<close>: a dictionary gives the value of the key or raises \<open>KeyError\<close>; every
  other JSON value raises \<open>TypeError\<close> on a string subscript.
\<close>

fun getitem :: "json \<Rightarrow> string \<Rightarrow> error + json" where
  "getitem (JObject kvs) k =
     (case map_of kvs k of None \<Rightarrow> Inl (KeyError k) | Some v \<Rightarrow> Inr v)"
| "getitem _ k = Inl TypeError"

text \<open>
  The body of the \<open>with\<close> block of \<open>get_notification_result\<close>, lines 62 to 67. The string
  \<open>'Success'\<close> and the decoded reason are values of the same kind.
\<close>

definition interpret_response :: "('s, 'p) env \<Rightarrow> response \<Rightarrow> error + json" where
  "interpret_response e resp =
     (if status resp = 200 then Inr (JString ''Success'')
      else
        (case read resp of
           Inl msg \<Rightarrow> Inl (TransportError msg)
         | Inr raw \<Rightarrow>
             (case decode_utf8 e raw of
                Inl msg \<Rightarrow> Inl (CodecError msg)
              | Inr raw_data \<Rightarrow>
                  (case json_loads e raw_data of
                     Inl msg \<Rightarrow> Inl (CodecError msg)
                   | Inr data \<Rightarrow> getitem data ''reason''))))"

definition get_notification_result ::
  "('s, 'p) env \<Rightarrow> nat \<Rightarrow> 's \<Rightarrow> (error + json) \<times> 's" where
  "get_notification_result e sid w =
     (case conn_get_response e sid w of
        (Inl msg, w') \<Rightarrow> (Inl (TransportError msg), w')
      | (Inr resp, w') \<Rightarrow> (interpret_response e resp, w'))"

text \<open>\<open>send_notification\<close>, lines 37 to 42.\<close>

definition send_notification ::
  "('s, 'p) env \<Rightarrow> string \<Rightarrow> 'p \<Rightarrow> string \<Rightarrow> NotificationPriority \<Rightarrow> int option \<Rightarrow> 's
     \<Rightarrow> (error + unit) \<times> 's" where
  "send_notification e token_hex notification topic priority expiration w =
     (case send_notification_async e token_hex notification topic priority expiration w of
        (Inl err, w1) \<Rightarrow> (Inl err, w1)
      | (Inr sid, w1) \<Rightarrow>
          (case get_notification_result e sid w1 of
             (Inl err, w2) \<Rightarrow> (Inl err, w2)
           | (Inr result, w2) \<Rightarrow>
               (if result \<noteq> JString ''Success''
                then (Inl (exception_class_for_reason result), w2)
                else (Inr (), w2))))"

section \<open>The concurrency limit\<close>

text \<open>
  \<open>update_max_concurrent_streams\<close>, lines 122 to 146. \<open>update_limit\<close> is the part after
  the read of the peer's setting, \<open>raw\<close> being the value read. No path of the method
  returns a value, so the caller receives \<open>None\<close>, here \<open>JNull\<close>.
\<close>

definition update_limit :: "int \<Rightarrow> client \<Rightarrow> client" where
  "update_limit raw c =
     (if Some raw = previous_server_max_concurrent_streams c then c
      else
        (let c1 = c\<lparr>previous_server_max_concurrent_streams := Some raw\<rparr> in
         if raw > CONCURRENT_STREAMS_SAFETY_MAXIMUM
           then c1\<lparr>max_concurrent_streams := Some CONCURRENT_STREAMS_SAFETY_MAXIMUM\<rparr>
         else if raw < 1
           then c1\<lparr>max_concurrent_streams := Some 1\<rparr>
         else c1\<lparr>max_concurrent_streams := Some raw\<rparr>))"

definition update_max_concurrent_streams ::
  "('s, 'p) env \<Rightarrow> client \<Rightarrow> 's \<Rightarrow> json \<times> client \<times> 's" where
  "update_max_concurrent_streams e c w =
     (case conn_remote_max_concurrent_streams e w of
        (raw, w') \<Rightarrow> (JNull, update_limit raw c, w'))"

text \<open>
  \<open>should_send_notification\<close>, line 119. \<open>and\<close> does not evaluate the comparison when the
  notification is \<open>None\<close>; the comparison of an \<open>int\<close> with \<open>None\<close> raises \<open>TypeError\<close>.
\<close>

definition should_send_notification ::
  "client \<Rightarrow> 'p Notification option \<Rightarrow> RequestStream list \<Rightarrow> error + bool" where
  "should_send_notification c notification streams =
     (case notification of
        None \<Rightarrow> Inr False
      | Some _ \<Rightarrow>
          (case max_concurrent_streams c of
             None \<Rightarrow> Inl TypeError
           | Some m \<Rightarrow> Inr (int (length streams) < m)))"

section \<open>Connecting\<close>

text \<open>
  \<open>connect\<close>, lines 148 to 163: the loop on \<open>retries\<close>. \<open>except Exception\<close> catches
  whatever the attempt raises.
\<close>

function connect_loop :: "('s, 'p) env \<Rightarrow> nat \<Rightarrow> 's \<Rightarrow> (error + unit) \<times> 's" where
  "connect_loop e retries w =
     (if retries < MAX_CONNECTION_RETRIES
      then (case conn_connect e w of
              (None, w') \<Rightarrow> (Inr (), w')
            | (Some msg, w') \<Rightarrow> connect_loop e (retries + 1) w')
      else (Inl ConnectionFailed, w))"
  by pat_completeness auto
termination
  by (relation "measure (\<lambda>(e, retries, w). MAX_CONNECTION_RETRIES - retries)") auto

declare connect_loop.simps [simp del]

definition connect :: "('s, 'p) env \<Rightarrow> 's \<Rightarrow> (error + unit) \<times> 's" where
  "connect e w = connect_loop e 0 w"

section \<open>Sending a batch\<close>

text \<open>
  The transport calls of the loop, in the order they are made: \<open>Submit i\<close> is a
  \<open>request\<close> that returned the stream id \<open>i\<close>, \<open>Drain i\<close> a call of
  \<open>get_notification_result\<close> on the stream \<open>i\<close>.
\<close>

datatype call = Submit nat | Drain nat

fun submitted :: "call list \<Rightarrow> nat list" where
  "submitted [] = []"
| "submitted (Submit i # cs) = i # submitted cs"
| "submitted (Drain i # cs) = submitted cs"

fun drained :: "call list \<Rightarrow> nat list" where
  "drained [] = []"
| "drained (Submit i # cs) = drained cs"
| "drained (Drain i # cs) = i # drained cs"

text \<open>
  The variables of \<open>send_notification_batch\<close> and what it reads and assigns outside:
  the client's attributes and the connection. \<open>open_streams\<close> is the deque, its left end
  first; \<open>results\<close> is the dictionary, with \<open>AList.update\<close> as its item assignment.
  \<open>calls\<close> is a history variable: no branch of the loop reads it.
\<close>

record ('s, 'p) batch_state =
  bs_client :: client
  bs_world :: 's
  notification_iterator :: "'p Notification list"
  next_notification :: "'p Notification option"
  open_streams :: "RequestStream list"
  results :: "(string \<times> json) list"
  calls :: "call list"

text \<open>\<open>next(notification_iterator, None)\<close>: the element and the rest of the iterator.\<close>

fun next_of :: "'a list \<Rightarrow> 'a option \<times> 'a list" where
  "next_of [] = (None, [])"
| "next_of (x # xs) = (Some x, xs)"

text \<open>Lines 83 to 90, without the call of \<open>connect\<close>: the state the loop starts in.\<close>

definition init_state :: "client \<Rightarrow> 's \<Rightarrow> 'p Notification list \<Rightarrow> ('s, 'p) batch_state" where
  "init_state c w notifications =
     \<lparr>bs_client = c, bs_world = w,
      notification_iterator = snd (next_of notifications),
      next_notification = fst (next_of notifications),
      open_streams = [], results = [], calls = []\<rparr>"

text \<open>The condition of the \<open>while\<close>, line 94.\<close>

definition loop_cond :: "('s, 'p) batch_state \<Rightarrow> bool" where
  "loop_cond s \<longleftrightarrow> length (open_streams s) > 0 \<or> next_notification s \<noteq> None"

text \<open>
  One iteration, lines 97 to 115. The result is the exception raised, if any, and the
  state at the end of the iteration or at the raise. \<open>next_notification.token\<close> on
  \<open>None\<close> raises \<open>AttributeError\<close> and \<open>popleft\<close> on an empty deque \<open>IndexError\<close>.
\<close>

definition loop_body ::
  "('s, 'p) env \<Rightarrow> string \<Rightarrow> NotificationPriority \<Rightarrow> int option \<Rightarrow> ('s, 'p) batch_state
     \<Rightarrow> error option \<times> ('s, 'p) batch_state" where
  "loop_body e topic priority expiration s =
     (case update_max_concurrent_streams e (bs_client s) (bs_world s) of
        (_, c1, w1) \<Rightarrow>
          (let s1 = s\<lparr>bs_client := c1, bs_world := w1\<rparr> in
           case should_send_notification c1 (next_notification s1) (open_streams s1) of
             Inl err \<Rightarrow> (Some err, s1)
           | Inr True \<Rightarrow>
               (case next_notification s1 of
                  None \<Rightarrow> (Some AttributeError, s1)
                | Some n \<Rightarrow>
                    (case send_notification_async e (token n) (payload n) topic priority
                            expiration w1 of
                       (Inl err, w2) \<Rightarrow> (Some err, s1\<lparr>bs_world := w2\<rparr>)
                     | (Inr sid, w2) \<Rightarrow>
                         (None,
                          s1\<lparr>bs_world := w2,
                             open_streams :=
                               open_streams s1 @ [\<lparr>stream_id = sid, rs_token = token n\<rparr>],
                             next_notification := fst (next_of (notification_iterator s1)),
                             notification_iterator := snd (next_of (notification_iterator s1)),
                             calls := calls s1 @ [Submit sid]\<rparr>)))
           | Inr False \<Rightarrow>
               (case open_streams s1 of
                  [] \<Rightarrow> (Some IndexError, s1)
                | pending_stream # rest \<Rightarrow>
                    (let s2 = s1\<lparr>open_streams := rest,
                                 calls := calls s1 @ [Drain (stream_id pending_stream)]\<rparr> in
                     case get_notification_result e (stream_id pending_stream) w1 of
                       (Inl err, w2) \<Rightarrow> (Some err, s2\<lparr>bs_world := w2\<rparr>)
                     | (Inr result, w2) \<Rightarrow>
                         (None,
                          s2\<lparr>bs_world := w2,
                             results :=
                               AList.update (rs_token pending_stream) result (results s2)\<rparr>)))))"

text \<open>
  What the loop has left to do: two steps for each notification not yet submitted, one
  for each open stream.
\<close>

definition remaining :: "('s, 'p) batch_state \<Rightarrow> nat" where
  "remaining s =
     2 * ((case next_notification s of None \<Rightarrow> 0 | Some _ \<Rightarrow> 1)
          + length (notification_iterator s))
     + length (open_streams s)"

text \<open>The \<open>while\<close> loop, lines 94 to 115.\<close>

function batch_loop ::
  "('s, 'p) env \<Rightarrow> string \<Rightarrow> NotificationPriority \<Rightarrow> int option \<Rightarrow> ('s, 'p) batch_state
     \<Rightarrow> error option \<times> ('s, 'p) batch_state" where
  "batch_loop e topic priority expiration s =
     (if loop_cond s
      then (case loop_body e topic priority expiration s of
              (Some err, s') \<Rightarrow> (Some err, s')
            | (None, s') \<Rightarrow> batch_loop e topic priority expiration s')
      else (None, s))"
  by pat_completeness auto
termination
proof (relation "measure (\<lambda>(e, topic, priority, expiration, s). remaining s)")
  show "wf (measure (\<lambda>(e, topic, priority, expiration, s). remaining s))"
    by simp
next
  fix e :: "('s, 'p) env" and topic priority expiration
    and s s' :: "('s, 'p) batch_state" and x
  assume "loop_cond s" and "(x, s') = loop_body e topic priority expiration s"
    and "x = None"
  then have "loop_body e topic priority expiration s = (None, s')"
    by simp
  then have "remaining s' < remaining s"
    by (cases "notification_iterator s")
      (auto simp: loop_body_def remaining_def update_max_concurrent_streams_def Let_def
        split: prod.splits sum.splits bool.splits option.splits list.splits)
  then show "((e, topic, priority, expiration, s'), (e, topic, priority, expiration, s))
      \<in> measure (\<lambda>(e, topic, priority, expiration, s). remaining s)"
    by simp
qed

declare batch_loop.simps [simp del]

text \<open>
  The same loop cut off after \<open>n\<close> iterations: the state the loop is in after its
  \<open>n\<close>-th iteration, or the one it stopped in before.
\<close>

fun run_steps ::
  "('s, 'p) env \<Rightarrow> string \<Rightarrow> NotificationPriority \<Rightarrow> int option \<Rightarrow> nat
     \<Rightarrow> ('s, 'p) batch_state \<Rightarrow> error option \<times> ('s, 'p) batch_state" where
  "run_steps e topic priority expiration 0 s = (None, s)"
| "run_steps e topic priority expiration (Suc n) s =
     (if loop_cond s
      then (case loop_body e topic priority expiration s of
              (Some err, s') \<Rightarrow> (Some err, s')
            | (None, s') \<Rightarrow> run_steps e topic priority expiration n s')
      else (None, s))"

text \<open>
  \<open>send_notification_batch\<close>, lines 69 to 117: the result is the dictionary or the
  exception, with the client's attributes and the connection as the call leaves them.
\<close>

definition send_notification_batch ::
  "('s, 'p) env \<Rightarrow> client \<Rightarrow> 's \<Rightarrow> 'p Notification list \<Rightarrow> string \<Rightarrow> NotificationPriority
     \<Rightarrow> int option \<Rightarrow> (error + (string \<times> json) list) \<times> client \<times> 's" where
  "send_notification_batch e c w notifications topic priority expiration =
     (case connect e w of
        (Inl err, w1) \<Rightarrow> (Inl err, c, w1)
      | (Inr _, w1) \<Rightarrow>
          (case batch_loop e topic priority expiration (init_state c w1 notifications) of
             (Some err, s) \<Rightarrow> (Inl err, bs_client s, bs_world s)
           | (None, s) \<Rightarrow> (Inr (results s), bs_client s, bs_world s)))"

text \<open>
  What the methods keep true of the two attributes: they are \<open>None\<close> together, and once
  a value of the peer has been seen the limit is that value brought into the range from
  1 to \<open>CONCURRENT_STREAMS_SAFETY_MAXIMUM\<close>.
\<close>

definition client_ok :: "client \<Rightarrow> bool" where
  "client_ok c =
     (case previous_server_max_concurrent_streams c of
        None \<Rightarrow> max_concurrent_streams c = None
      | Some raw \<Rightarrow>
          max_concurrent_streams c
            = Some (if raw > CONCURRENT_STREAMS_SAFETY_MAXIMUM
                    then CONCURRENT_STREAMS_SAFETY_MAXIMUM
                    else if raw < 1 then 1 else raw))"

section \<open>Test transports\<close>

text \<open>
  A scripted peer for running the client on concrete inputs. Its state counts the
  connection attempts, the reads of the concurrency setting and the streams opened.
  \<open>conn k\<close> is the outcome of the attempt after \<open>k\<close> earlier ones, \<open>lim k\<close> the setting at
  the read after \<open>k\<close> earlier ones, \<open>resp i\<close> the response on stream \<open>i\<close>. Streams get the
  odd identifiers 1, 3, 5 and so on, as HTTP/2 clients number them. Payloads are already
  text.
\<close>

record peer =
  attempts :: nat
  reads :: nat
  opened :: nat

definition peer0 :: peer where
  "peer0 = \<lparr>attempts = 0, reads = 0, opened = 0\<rparr>"

text \<open>
  A stand-in for \<open>json.loads\<close> that understands the one shape the gateway sends, an
  object with the single key \<open>reason\<close> and a string without escapes.
\<close>

fun strip_prefix :: "string \<Rightarrow> string \<Rightarrow> string option" where
  "strip_prefix [] s = Some s"
| "strip_prefix (p # ps) [] = None"
| "strip_prefix (p # ps) (c # cs) = (if p = c then strip_prefix ps cs else None)"

definition reason_loads :: "string \<Rightarrow> string + json" where
  \<open>reason_loads s =
     (case strip_prefix ''{"reason":"'' s of
        None \<Rightarrow> Inl ''Expecting value''
      | Some rest \<Rightarrow>
          (case strip_prefix (rev ''"}'') (rev rest) of
             None \<Rightarrow> Inl ''Unterminated string''
           | Some r \<Rightarrow> Inr (JObject [(''reason'', JString (rev r))])))\<close>

definition scripted ::
  "(nat \<Rightarrow> string option) \<Rightarrow> (nat \<Rightarrow> int) \<Rightarrow> (nat \<Rightarrow> string + response)
     \<Rightarrow> (peer, string) env" where
  "scripted conn lim resp =
     \<lparr>conn_connect = (\<lambda>w. (conn (attempts w), w\<lparr>attempts := Suc (attempts w)\<rparr>)),
      conn_request = (\<lambda>r w. (Inr (2 * opened w + 1), w\<lparr>opened := Suc (opened w)\<rparr>)),
      conn_get_response = (\<lambda>sid w. (resp sid, w)),
      conn_remote_max_concurrent_streams = (\<lambda>w. (lim (reads w), w\<lparr>reads := Suc (reads w)\<rparr>)),
      json_dumps = Inr,
      decode_utf8 = Inr,
      json_loads = reason_loads\<rparr>"

definition connects :: "nat \<Rightarrow> string option" where
  "connects k = None"

definition refuses :: "nat \<Rightarrow> string option" where
  "refuses k = Some ''Connection refused''"

definition ok200 :: "nat \<Rightarrow> string + response" where
  "ok200 sid = Inr \<lparr>status = 200, read = Inr []\<rparr>"

definition answers :: "int \<Rightarrow> string \<Rightarrow> nat \<Rightarrow> string + response" where
  "answers code text sid = Inr \<lparr>status = code, read = Inr text\<rparr>"

definition to_tokens :: "string list \<Rightarrow> string Notification list" where
  "to_tokens ts = map (\<lambda>t. \<lparr>token = t, payload = ''{}''\<rparr>) ts"

text \<open>Reading a string of decimal digits back as a number.\<close>

definition decimal_value :: "string \<Rightarrow> nat" where
  "decimal_value ds = foldl (\<lambda>acc d. 10 * acc + (of_char d - 48)) 0 ds"

text \<open>The effective limit of a fresh client after one refresh against a peer reporting \<open>raw\<close>.\<close>

definition limit_after :: "int \<Rightarrow> int option" where
  "limit_after raw =
     max_concurrent_streams
       (fst (snd (update_max_concurrent_streams (scripted connects (\<lambda>k. raw) ok200)
          init_client peer0)))"

text \<open>A client that has seen the raw value 2.\<close>

definition limit2 :: client where
  "limit2 = \<lparr>max_concurrent_streams = Some 2, previous_server_max_concurrent_streams = Some 2\<rparr>"

text \<open>Three notifications, two of them for the same token.\<close>

definition three :: "string Notification list" where
  "three = to_tokens [''a1'', ''b2'', ''a1'']"

section \<open>Invariants of the loop\<close>

text \<open>
  Every token of the set \<open>T\<close> is in the results, on an open stream or still to be sent,
  the results have one entry for a token, and an exhausted iterator stays exhausted.
\<close>

definition covers :: "string set \<Rightarrow> ('s, 'p) batch_state \<Rightarrow> bool" where
  "covers T s \<longleftrightarrow>
     (next_notification s = None \<longrightarrow> notification_iterator s = [])
     \<and> distinct (map fst (results s))
     \<and> fst ` set (results s) \<union> rs_token ` set (open_streams s)
         \<union> token ` (set_option (next_notification s) \<union> set (notification_iterator s)) = T"

text \<open>
  A peer that reports the limit 3 at the first three reads and the limit 1 from then
  on, four notifications, and the loop after three and after four iterations on them.
\<close>

definition lowering :: "nat \<Rightarrow> int" where
  "lowering k = (if k < 3 then 3 else 1)"

definition four :: "string Notification list" where
  "four = to_tokens [''a1'', ''b2'', ''c3'', ''d4'']"

definition after_three :: "(peer, string) batch_state" where
  "after_three =
     snd (run_steps (scripted connects lowering ok200) ''com.example'' Immediate None 3
            (init_state init_client peer0 four))"

definition after_four :: "error option \<times> (peer, string) batch_state" where
  "after_four =
     run_steps (scripted connects lowering ok200) ''com.example'' Immediate None 4
       (init_state init_client peer0 four)"

text \<open>The attributes are as the methods leave them and at most 1000 streams are open.\<close>

definition bounded :: "('s, 'p) batch_state \<Rightarrow> bool" where
  "bounded s \<longleftrightarrow> client_ok (bs_client s) \<and> length (open_streams s) \<le> 1000"

text \<open>
  The streams submitted so far are the streams drained so far followed by the open
  ones, in this order.
\<close>

definition fifo :: "('s, 'p) batch_state \<Rightarrow> bool" where
  "fifo s \<longleftrightarrow>
     submitted (calls s) = drained (calls s) @ map stream_id (open_streams s)"

text \<open>The whole loop on three notifications under the limit 3.\<close>

definition abc_run :: "error option \<times> (peer, string) batch_state" where
  "abc_run =
     batch_loop (scripted connects (\<lambda>k. 3) ok200) ''com.example'' Immediate None
       (init_state init_client peer0 (to_tokens [''a1'', ''b2'', ''c3'']))"

text \<open>The state the loop starts in on two notifications, for a peer that reports 0.\<close>

definition zero_start :: "(peer, string) batch_state" where
  "zero_start = init_state init_client peer0 (to_tokens [''a1'', ''b2''])"

section \<open>Properties of the decimal format\<close>

lemma decimal_value_snoc:
  "decimal_value (ds @ [d]) = 10 * decimal_value ds + (of_char d - 48)"
  by (simp add: decimal_value_def)

lemma decimal_value_str_nat: "decimal_value (str_nat n) = n"
proof (induction n rule: str_nat.induct)
  case (1 n)
  show ?case
  proof (cases "n < 10")
    case True
    then show ?thesis
      by (subst str_nat.simps) (simp add: decimal_value_def)
  next
    case False
    then have "decimal_value (str_nat (n div 10)) = n div 10"
      using "1" by simp
    then show ?thesis using False
      by (subst str_nat.simps) (simp add: decimal_value_snoc)
  qed
qed

lemma digit_chars: "list_all (\<lambda>d. char_of (48 + d) \<in> set ''0123456789'') [0..<10]"
  by code_simp

lemma digit_char: "(d::nat) < 10 \<Longrightarrow> char_of (48 + d) \<in> set ''0123456789''"
proof -
  assume "d < 10"
  then have "d \<in> set [0..<10]"
    by simp
  with digit_chars show ?thesis
    unfolding list_all_iff by (rule bspec)
qed

lemma str_nat_digits: "c \<in> set (str_nat n) \<Longrightarrow> c \<in> set ''0123456789''"
proof (induction n rule: str_nat.induct)
  case (1 n)
  show ?case
  proof (cases "n < 10")
    case True
    with "1.prems" have "c = char_of (48 + n)"
      by (subst (asm) str_nat.simps) simp
    then show ?thesis using digit_char [OF True] by simp
  next
    case False
    with "1.prems" have "c \<in> set (str_nat (n div 10)) \<or> c = char_of (48 + n mod 10)"
      by (subst (asm) str_nat.simps) auto
    moreover have "char_of (48 + n mod 10) \<in> set ''0123456789''"
      by (rule digit_char) simp
    ultimately show ?thesis using "1.IH" False by blast
  qed
qed

lemma format_d_decimal:
  assumes "0 \<le> i"
  shows "decimal_value (format_d i) = nat i \<and> set (format_d i) \<subseteq> set ''0123456789''"
proof -
  from assms have "format_d i = str_nat (nat i)"
    by (simp add: format_d_def)
  moreover have "set (str_nat (nat i)) \<subseteq> set ''0123456789''"
    using str_nat_digits by blast
  ultimately show ?thesis
    using decimal_value_str_nat [of "nat i"] by simp
qed

section \<open>The concurrency limit is clamped\<close>

text \<open>
  C4. When the value the peer reports differs from the last one seen,
  \<open>update_max_concurrent_streams\<close> records it and sets the effective limit to a value
  between 1 and 1000: 1000 for a value above 1000, 1 for a value below 1, the value
  itself otherwise. The raw values 0, 1, 500, 1000, 1001 and 5000 give 1, 1, 500, 1000,
  1000 and 1000, as the second theorem evaluates.
\<close>

theorem update_max_concurrent_streams_clamps:
  assumes "conn_remote_max_concurrent_streams e w = (raw, w')"
    and "previous_server_max_concurrent_streams c \<noteq> Some raw"
  shows "\<exists>m. update_max_concurrent_streams e c w
               = (JNull,
                  c\<lparr>previous_server_max_concurrent_streams := Some raw,
                    max_concurrent_streams := Some m\<rparr>,
                  w')
             \<and> 1 \<le> m \<and> m \<le> 1000
             \<and> (raw > 1000 \<longrightarrow> m = 1000)
             \<and> (raw < 1 \<longrightarrow> m = 1)
             \<and> (1 \<le> raw \<and> raw \<le> 1000 \<longrightarrow> m = raw)"
  using assms
  by (auto simp: update_max_concurrent_streams_def update_limit_def Let_def
      CONCURRENT_STREAMS_SAFETY_MAXIMUM_def)

theorem update_max_concurrent_streams_clamps_witness:
  "limit_after 0 = Some 1 \<and> limit_after 1 = Some 1 \<and> limit_after 500 = Some 500
   \<and> limit_after 1000 = Some 1000 \<and> limit_after 1001 = Some 1000
   \<and> limit_after 5000 = Some 1000"
proof -
  have r: "conn_remote_max_concurrent_streams (scripted connects (\<lambda>k. raw) ok200) peer0
        = (raw, peer0\<lparr>reads := 1\<rparr>)" for raw
    by (simp add: scripted_def peer0_def)
  have p: "previous_server_max_concurrent_streams init_client \<noteq> Some raw" for raw
    by (simp add: init_client_def)
  show ?thesis
    using update_max_concurrent_streams_clamps [OF r [of 0] p]
      update_max_concurrent_streams_clamps [OF r [of 1] p]
      update_max_concurrent_streams_clamps [OF r [of 500] p]
      update_max_concurrent_streams_clamps [OF r [of 1000] p]
      update_max_concurrent_streams_clamps [OF r [of 1001] p]
      update_max_concurrent_streams_clamps [OF r [of 5000] p]
    by (auto simp: limit_after_def)
qed

section \<open>Refreshing twice\<close>

text \<open>
  C5, as the claim states it, fails: \<open>update_max_concurrent_streams\<close> returns \<open>None\<close> on
  every path, also when the effective limit changes, here from 2 to 500. It does not
  return the boolean \<open>True\<close>.
\<close>

theorem update_max_concurrent_streams_returns_none:
  "max_concurrent_streams limit2 = Some 2
   \<and> max_concurrent_streams
        (fst (snd (update_max_concurrent_streams (scripted connects (\<lambda>k. 500) ok200)
           limit2 peer0))) = Some 500
   \<and> fst (update_max_concurrent_streams (scripted connects (\<lambda>k. 500) ok200) limit2 peer0)
        = JNull
   \<and> fst (update_max_concurrent_streams (scripted connects (\<lambda>k. 500) ok200) limit2 peer0)
        \<noteq> JBool True"
  by (simp add: update_max_concurrent_streams_def update_limit_def scripted_def limit2_def
      peer0_def CONCURRENT_STREAMS_SAFETY_MAXIMUM_def)

text \<open>
  C5, amended. \<open>update_max_concurrent_streams\<close> returns \<open>None\<close>, and it is idempotent:
  when two calls in a row read the same raw value, the second one leaves the effective
  limit and the last-seen raw value as the first one left them.
\<close>

theorem update_max_concurrent_streams_idempotent:
  assumes "conn_remote_max_concurrent_streams e w = (raw, w1)"
    and "conn_remote_max_concurrent_streams e w1 = (raw, w2)"
  shows "\<exists>c1. update_max_concurrent_streams e c w = (JNull, c1, w1)
              \<and> update_max_concurrent_streams e c1 w1 = (JNull, c1, w2)
              \<and> previous_server_max_concurrent_streams c1 = Some raw"
  using assms
  by (auto simp: update_max_concurrent_streams_def update_limit_def Let_def)

theorem update_max_concurrent_streams_idempotent_witness:
  "update_max_concurrent_streams (scripted connects (\<lambda>k. 500) ok200) limit2 peer0
     = (JNull,
        \<lparr>max_concurrent_streams = Some 500, previous_server_max_concurrent_streams = Some 500\<rparr>,
        peer0\<lparr>reads := 1\<rparr>)
   \<and> update_max_concurrent_streams (scripted connects (\<lambda>k. 500) ok200)
        \<lparr>max_concurrent_streams = Some 500, previous_server_max_concurrent_streams = Some 500\<rparr>
        (peer0\<lparr>reads := 1\<rparr>)
     = (JNull,
        \<lparr>max_concurrent_streams = Some 500, previous_server_max_concurrent_streams = Some 500\<rparr>,
        peer0\<lparr>reads := 2\<rparr>)"
proof -
  have r1: "conn_remote_max_concurrent_streams (scripted connects (\<lambda>k. 500) ok200) peer0
        = (500, peer0\<lparr>reads := 1\<rparr>)"
    by (simp add: scripted_def peer0_def)
  have r2: "conn_remote_max_concurrent_streams (scripted connects (\<lambda>k. 500) ok200)
          (peer0\<lparr>reads := 1\<rparr>)
        = (500, peer0\<lparr>reads := 2\<rparr>)"
    by (simp add: scripted_def peer0_def)
  have first: "update_max_concurrent_streams (scripted connects (\<lambda>k. 500) ok200) limit2 peer0
     = (JNull,
        \<lparr>max_concurrent_streams = Some 500, previous_server_max_concurrent_streams = Some 500\<rparr>,
        peer0\<lparr>reads := 1\<rparr>)"
    by (simp add: update_max_concurrent_streams_def update_limit_def scripted_def limit2_def
      peer0_def CONCURRENT_STREAMS_SAFETY_MAXIMUM_def)
  show ?thesis
    using update_max_concurrent_streams_idempotent [OF r1 r2, of limit2] first
    by auto
qed

section \<open>Connecting\<close>

text \<open>
  C8. \<open>connect\<close> makes at most three attempts: it returns at the first attempt that
  succeeds, and after three failed attempts it raises \<open>ConnectionFailed\<close> in the state
  the third attempt left, without a fourth attempt.
\<close>

theorem connect_three_attempts:
  "connect e w =
     (case conn_connect e w of
        (None, w1) \<Rightarrow> (Inr (), w1)
      | (Some x1, w1) \<Rightarrow>
          (case conn_connect e w1 of
             (None, w2) \<Rightarrow> (Inr (), w2)
           | (Some x2, w2) \<Rightarrow>
               (case conn_connect e w2 of
                  (None, w3) \<Rightarrow> (Inr (), w3)
                | (Some x3, w3) \<Rightarrow> (Inl ConnectionFailed, w3))))"
  by (simp add: connect_def connect_loop.simps [of e 0] connect_loop.simps [of e "Suc 0"]
      connect_loop.simps [of e "Suc (Suc 0)"] connect_loop.simps [of e "Suc (Suc (Suc 0))"]
      MAX_CONNECTION_RETRIES_def split: prod.splits option.splits)

theorem connect_three_attempts_witness:
  "connect (scripted refuses (\<lambda>k. 500) ok200) peer0 = (Inl ConnectionFailed, peer0\<lparr>attempts := 3\<rparr>)
   \<and> connect (scripted connects (\<lambda>k. 500) ok200) peer0 = (Inr (), peer0\<lparr>attempts := 1\<rparr>)
   \<and> connect (scripted (\<lambda>k. if k < 2 then Some ''timed out'' else None) (\<lambda>k. 500) ok200) peer0
       = (Inr (), peer0\<lparr>attempts := 3\<rparr>)"
  using connect_three_attempts [of "scripted refuses (\<lambda>k. 500) ok200" peer0]
    connect_three_attempts [of "scripted connects (\<lambda>k. 500) ok200" peer0]
    connect_three_attempts
      [of "scripted (\<lambda>k. if k < 2 then Some ''timed out'' else None) (\<lambda>k. 500) ok200" peer0]
  by (simp add: scripted_def refuses_def connects_def peer0_def)

section \<open>The headers of a request\<close>

text \<open>
  C9. \<open>send_notification_async\<close> passes \<open>request\<close> the headers \<open>request_headers\<close> builds:
  \<open>apns-topic\<close> always, \<open>apns-priority\<close> exactly when the priority is not \<open>Immediate\<close>
  (with the value 5 for \<open>Delayed\<close>), \<open>apns-expiration\<close> exactly when an expiration is
  given, as its decimal digits (for an expiration that is not negative, digits only,
  which read back give the number), and no other header. The default priority without an
  expiration gives \<open>apns-topic\<close> alone; \<open>Delayed\<close> with the expiration 100 gives all three,
  with 5 and 100.
\<close>

theorem send_notification_async_headers:
  assumes "json_dumps e notification = Inr body"
  shows "send_notification_async e token_hex notification topic priority expiration w
           = (case conn_request e
                     \<lparr>req_method = ''POST'', req_url = ''/3/device/'' @ token_hex,
                      req_body = body,
                      req_headers = request_headers topic priority expiration\<rparr> w of
                (Inl msg, w') \<Rightarrow> (Inl (TransportError msg), w')
              | (Inr sid, w') \<Rightarrow> (Inr sid, w'))
         \<and> map_of (request_headers topic priority expiration) ''apns-topic'' = Some topic
         \<and> map_of (request_headers topic priority expiration) ''apns-priority''
             = (if priority = Immediate then None else Some ''5'')
         \<and> map_of (request_headers topic priority expiration) ''apns-expiration''
             = map_option format_d expiration
         \<and> fst ` set (request_headers topic priority expiration)
             \<subseteq> {''apns-topic'', ''apns-priority'', ''apns-expiration''}
         \<and> (\<forall>ex. expiration = Some ex \<longrightarrow> 0 \<le> ex \<longrightarrow>
                decimal_value (format_d ex) = nat ex
                \<and> set (format_d ex) \<subseteq> set ''0123456789'')
         \<and> request_headers topic Immediate None = [(''apns-topic'', topic)]
         \<and> request_headers topic Delayed (Some 100)
             = [(''apns-topic'', topic), (''apns-priority'', ''5''), (''apns-expiration'', ''100'')]"
proof -
  have f: "format_d 100 = ''100''"
    by code_simp
  have g: "\<forall>ex. expiration = Some ex \<longrightarrow> 0 \<le> ex \<longrightarrow>
             decimal_value (format_d ex) = nat ex
             \<and> set (format_d ex) \<subseteq> set ''0123456789''"
    using format_d_decimal by blast
  have "send_notification_async e token_hex notification topic priority expiration w
           = (case conn_request e
                     \<lparr>req_method = ''POST'', req_url = ''/3/device/'' @ token_hex,
                      req_body = body,
                      req_headers = request_headers topic priority expiration\<rparr> w of
                (Inl msg, w') \<Rightarrow> (Inl (TransportError msg), w')
              | (Inr sid, w') \<Rightarrow> (Inr sid, w'))"
    using assms by (simp add: send_notification_async_def)
  moreover have "map_of (request_headers topic priority expiration) ''apns-topic'' = Some topic"
    by (cases priority; cases expiration)
      (simp_all add: request_headers_def DEFAULT_APNS_PRIORITY_def)
  moreover have "map_of (request_headers topic priority expiration) ''apns-priority''
             = (if priority = Immediate then None else Some ''5'')"
    by (cases priority; cases expiration)
      (simp_all add: request_headers_def DEFAULT_APNS_PRIORITY_def)
  moreover have "map_of (request_headers topic priority expiration) ''apns-expiration''
             = map_option format_d expiration"
    by (cases priority; cases expiration)
      (simp_all add: request_headers_def DEFAULT_APNS_PRIORITY_def)
  moreover have "fst ` set (request_headers topic priority expiration)
             \<subseteq> {''apns-topic'', ''apns-priority'', ''apns-expiration''}"
    by (cases priority; cases expiration)
      (simp_all add: request_headers_def DEFAULT_APNS_PRIORITY_def)
  moreover have "request_headers topic Immediate None = [(''apns-topic'', topic)]"
    by (simp add: request_headers_def DEFAULT_APNS_PRIORITY_def)
  moreover have "request_headers topic Delayed (Some 100)
             = [(''apns-topic'', topic), (''apns-priority'', ''5''), (''apns-expiration'', ''100'')]"
    by (simp add: request_headers_def DEFAULT_APNS_PRIORITY_def f)
  ultimately show ?thesis
    using g by blast
qed

theorem send_notification_async_headers_witness:
  "send_notification_async (scripted connects (\<lambda>k. 500) ok200) ''a1'' ''{}'' ''com.example''
       Delayed (Some 100) peer0
     = (Inr 1, peer0\<lparr>opened := 1\<rparr>)
   \<and> request_headers ''com.example'' Delayed (Some 100)
       = [(''apns-topic'', ''com.example''), (''apns-priority'', ''5''),
          (''apns-expiration'', ''100'')]
   \<and> request_headers ''com.example'' Immediate None = [(''apns-topic'', ''com.example'')]"
proof -
  have d: "json_dumps (scripted connects (\<lambda>k. 500) ok200) ''{}'' = Inr ''{}''"
    by (simp add: scripted_def)
  show ?thesis
    using send_notification_async_headers [OF d, of "''a1''" "''com.example''" Delayed
        "Some 100" peer0]
    by (simp add: scripted_def peer0_def)
qed

section \<open>The result of a response\<close>

text \<open>
  C10. On a response with status 200, \<open>get_notification_result\<close> returns \<open>'Success'\<close>
  whatever the body is and whatever reading or parsing it would do. On any other
  status the body is read, decoded and parsed: the result is the value of its key
  \<open>reason\<close>, and a body that does not parse raises the parser's error.
\<close>

theorem get_notification_result_status:
  assumes "conn_get_response e sid w = (Inr resp, w')"
  shows "(status resp = 200 \<longrightarrow>
            get_notification_result e sid w = (Inr (JString ''Success''), w'))
         \<and> (status resp \<noteq> 200 \<longrightarrow>
              (\<forall>raw raw_data.
                 read resp = Inr raw \<longrightarrow> decode_utf8 e raw = Inr raw_data \<longrightarrow>
                   (\<forall>kvs reason.
                      json_loads e raw_data = Inr (JObject kvs) \<longrightarrow>
                      map_of kvs ''reason'' = Some reason \<longrightarrow>
                        get_notification_result e sid w = (Inr reason, w'))
                   \<and> (\<forall>msg.
                        json_loads e raw_data = Inl msg \<longrightarrow>
                          get_notification_result e sid w = (Inl (CodecError msg), w'))))"
  using assms by (simp add: get_notification_result_def interpret_response_def)

theorem get_notification_result_status_witness:
  \<open>get_notification_result (scripted connects (\<lambda>k. 500) (answers 200 ''<html>'')) 1 peer0
     = (Inr (JString ''Success''), peer0)
   \<and> get_notification_result (scripted connects (\<lambda>k. 500) ok200) 1 peer0
       = (Inr (JString ''Success''), peer0)
   \<and> get_notification_result
         (scripted connects (\<lambda>k. 500) (answers 410 ''{"reason":"Unregistered"}'')) 1 peer0
       = (Inr (JString ''Unregistered''), peer0)
   \<and> get_notification_result (scripted connects (\<lambda>k. 500) (answers 410 ''<html>'')) 1 peer0
       = (Inl (CodecError ''Expecting value''), peer0)\<close>
proof -
  have a: "conn_get_response (scripted connects (\<lambda>k. 500) (answers code bdy)) 1 peer0
      = (Inr \<lparr>status = code, read = Inr bdy\<rparr>, peer0)" for code bdy
    by (simp add: scripted_def answers_def)
  have b: "conn_get_response (scripted connects (\<lambda>k. 500) ok200) 1 peer0
      = (Inr \<lparr>status = 200, read = Inr []\<rparr>, peer0)"
    by (simp add: scripted_def ok200_def)
  have l1: \<open>reason_loads ''{"reason":"Unregistered"}''
      = Inr (JObject [(''reason'', JString ''Unregistered'')])\<close>
    by code_simp
  have l2: "reason_loads ''<html>'' = Inl ''Expecting value''"
    by code_simp
  show ?thesis
    using get_notification_result_status [OF a [of 200 "''<html>''"]]
      get_notification_result_status [OF b]
      get_notification_result_status [OF a [of 410 \<open>''{"reason":"Unregistered"}''\<close>]]
      get_notification_result_status [OF a [of 410 "''<html>''"]]
    by (simp add: scripted_def l1 l2)
qed

section \<open>Sending one notification\<close>

text \<open>
  C7, as the claim states it, fails: a response with status 410 whose reason is the
  string \<open>Success\<close> is interpreted as \<open>'Success'\<close>, and \<open>send_notification\<close> returns
  normally instead of raising.
\<close>

theorem send_notification_success_reason:
  \<open>get_notification_result
       (scripted connects (\<lambda>k. 500) (answers 410 ''{"reason":"Success"}'')) 1
       (peer0\<lparr>opened := 1\<rparr>)
     = (Inr (JString ''Success''), peer0\<lparr>opened := 1\<rparr>)
   \<and> send_notification (scripted connects (\<lambda>k. 500) (answers 410 ''{"reason":"Success"}''))
       ''a1'' ''{}'' ''com.example'' Immediate None peer0
     = (Inr (), peer0\<lparr>opened := 1\<rparr>)\<close>
  by code_simp

text \<open>
  C7, amended. \<open>send_notification\<close> raises the error for the reason exactly when the
  value \<open>get_notification_result\<close> returns differs from the string \<open>'Success'\<close>, and
  returns normally when it is that string, be it from a status 200 or from a reason
  that reads \<open>Success\<close>.
\<close>

theorem send_notification_raises:
  assumes "send_notification_async e token_hex notification topic priority expiration w
             = (Inr sid, w1)"
    and "get_notification_result e sid w1 = (Inr result, w2)"
  shows "send_notification e token_hex notification topic priority expiration w
           = (if result = JString ''Success'' then (Inr (), w2)
              else (Inl (NotificationRejected result), w2))"
  using assms by (simp add: send_notification_def exception_class_for_reason_def)

theorem send_notification_raises_witness:
  \<open>send_notification (scripted connects (\<lambda>k. 500) (answers 410 ''{"reason":"Unregistered"}''))
       ''a1'' ''{}'' ''com.example'' Immediate None peer0
     = (Inl (NotificationRejected (JString ''Unregistered'')), peer0\<lparr>opened := 1\<rparr>)
   \<and> send_notification (scripted connects (\<lambda>k. 500) ok200)
       ''a1'' ''{}'' ''com.example'' Immediate None peer0
     = (Inr (), peer0\<lparr>opened := 1\<rparr>)\<close>
proof -
  have a: \<open>send_notification_async
       (scripted connects (\<lambda>k. 500) resp)
       ''a1'' ''{}'' ''com.example'' Immediate None peer0 = (Inr 1, peer0\<lparr>opened := 1\<rparr>)\<close> for resp
    by (simp add: send_notification_async_def scripted_def peer0_def)
  have g1: \<open>get_notification_result
       (scripted connects (\<lambda>k. 500) (answers 410 ''{"reason":"Unregistered"}'')) 1
       (peer0\<lparr>opened := 1\<rparr>)
     = (Inr (JString ''Unregistered''), peer0\<lparr>opened := 1\<rparr>)\<close>
    by code_simp
  have g2: \<open>get_notification_result (scripted connects (\<lambda>k. 500) ok200) 1 (peer0\<lparr>opened := 1\<rparr>)
     = (Inr (JString ''Success''), peer0\<lparr>opened := 1\<rparr>)\<close>
    by code_simp
  show ?thesis
    using send_notification_raises [OF a g1] send_notification_raises [OF a g2]
    by simp
qed

section \<open>The loop, step by step\<close>

lemma client_ok_update_limit: "client_ok c \<Longrightarrow> client_ok (update_limit raw c)"
  by (simp add: client_ok_def update_limit_def Let_def)

lemma update_limit_range:
  "client_ok c \<Longrightarrow>
     \<exists>m. max_concurrent_streams (update_limit raw c) = Some m \<and> 1 \<le> m \<and> m \<le> 1000"
  by (auto simp: client_ok_def update_limit_def Let_def CONCURRENT_STREAMS_SAFETY_MAXIMUM_def
      split: option.splits if_splits)

lemma loop_body_client:
  "loop_body e t p x s = (r, s') \<Longrightarrow>
     bs_client s' = update_limit (fst (conn_remote_max_concurrent_streams e (bs_world s))) (bs_client s)"
  by (auto simp: loop_body_def update_max_concurrent_streams_def Let_def
      split: prod.splits sum.splits bool.splits option.splits list.splits)

lemma loop_body_None:
  assumes "loop_body e t p x s = (None, s')"
  shows "(\<exists>n sid m. next_notification s = Some n
            \<and> max_concurrent_streams (bs_client s') = Some m
            \<and> int (length (open_streams s)) < m
            \<and> open_streams s' = open_streams s @ [\<lparr>stream_id = sid, rs_token = token n\<rparr>]
            \<and> next_notification s' = fst (next_of (notification_iterator s))
            \<and> notification_iterator s' = snd (next_of (notification_iterator s))
            \<and> results s' = results s
            \<and> calls s' = calls s @ [Submit sid])
       \<or> (\<exists>ps rest result. open_streams s = ps # rest
            \<and> open_streams s' = rest
            \<and> next_notification s' = next_notification s
            \<and> notification_iterator s' = notification_iterator s
            \<and> results s' = AList.update (rs_token ps) result (results s)
            \<and> calls s' = calls s @ [Drain (stream_id ps)]
            \<and> (next_notification s = None
                \<or> (\<exists>m. max_concurrent_streams (bs_client s') = Some m
                       \<and> m \<le> int (length (open_streams s)))))"
  using assms
  by (auto simp: loop_body_def update_max_concurrent_streams_def should_send_notification_def
      Let_def split: prod.splits sum.splits bool.splits option.splits list.splits)

lemma loop_body_Some:
  assumes "loop_body e t p x s = (Some err, s')"
  shows "next_notification s' = next_notification s
       \<and> notification_iterator s' = notification_iterator s
       \<and> results s' = results s
       \<and> ((open_streams s' = open_streams s \<and> calls s' = calls s)
           \<or> (\<exists>ps. open_streams s = ps # open_streams s'
                 \<and> calls s' = calls s @ [Drain (stream_id ps)]))"
  using assms
  by (auto simp: loop_body_def update_max_concurrent_streams_def should_send_notification_def
      Let_def split: prod.splits sum.splits bool.splits option.splits list.splits)

lemma loop_body_decreases:
  assumes "loop_body e t p x s = (None, s')"
  shows "remaining s' + 1 = remaining s"
  using loop_body_None [OF assms]
  by (cases "notification_iterator s") (auto simp: remaining_def)

lemma run_steps_invariant:
  assumes step: "\<And>s r s'. I s \<Longrightarrow> loop_body e t p x s = (r, s') \<Longrightarrow> I s'"
    and "I s"
  shows "I (snd (run_steps e t p x n s))"
  using \<open>I s\<close>
proof (induction n arbitrary: s)
  case 0
  then show ?case by simp
next
  case (Suc n)
  show ?case
  proof (cases "loop_cond s")
    case False
    then show ?thesis using Suc.prems by simp
  next
    case True
    obtain r s' where b: "loop_body e t p x s = (r, s')"
      by (cases "loop_body e t p x s")
    then have "I s'" using step Suc.prems by blast
    then show ?thesis
      using True b Suc.IH [of s'] by (cases r) simp_all
  qed
qed

lemma run_steps_invariant_ok:
  assumes step: "\<And>s s'. I s \<Longrightarrow> loop_body e t p x s = (None, s') \<Longrightarrow> I s'"
    and "I s" and "run_steps e t p x n s = (None, s')"
  shows "I s'"
  using assms(2,3)
proof (induction n arbitrary: s)
  case 0
  then show ?case by simp
next
  case (Suc n)
  show ?case
  proof (cases "loop_cond s")
    case False
    then show ?thesis using Suc.prems by simp
  next
    case True
    obtain r s1 where b: "loop_body e t p x s = (r, s1)"
      by (cases "loop_body e t p x s")
    with True Suc.prems(2) have r: "r = None" and rest: "run_steps e t p x n s1 = (None, s')"
      by (cases r; simp)+
    from b r step Suc.prems(1) have "I s1" by blast
    then show ?thesis using Suc.IH rest by blast
  qed
qed

lemma remaining_0: "remaining s = 0 \<Longrightarrow> \<not> loop_cond s"
  by (auto simp: remaining_def loop_cond_def split: option.splits)

lemma batch_loop_run_steps:
  "remaining s \<le> n \<Longrightarrow> run_steps e t p x n s = batch_loop e t p x s"
proof (induction n arbitrary: s)
  case 0
  then show ?case
    using remaining_0 [of s] by (simp add: batch_loop.simps)
next
  case (Suc n)
  show ?case
  proof (cases "loop_cond s")
    case False
    then show ?thesis by (simp add: batch_loop.simps)
  next
    case True
    obtain r s' where b: "loop_body e t p x s = (r, s')"
      by (cases "loop_body e t p x s")
    show ?thesis
    proof (cases r)
      case None
      with b have "remaining s' + 1 = remaining s"
        using loop_body_decreases by blast
      with Suc.prems have "remaining s' \<le> n" by simp
      then have "run_steps e t p x n s' = batch_loop e t p x s'"
        by (rule Suc.IH)
      then show ?thesis using True b None
        by (simp add: batch_loop.simps [of e t p x s])
    next
      case (Some err)
      then show ?thesis using True b
        by (simp add: batch_loop.simps [of e t p x s])
    qed
  qed
qed

lemma batch_loop_exit:
  "batch_loop e t p x s = (None, s') \<Longrightarrow> \<not> loop_cond s'"
proof (induction e t p x s rule: batch_loop.induct)
  case (1 e t p x s)
  show ?case
  proof (cases "loop_cond s")
    case False
    then show ?thesis using "1.prems" by (simp add: batch_loop.simps)
  next
    case True
    obtain r s1 where b: "loop_body e t p x s = (r, s1)"
      by (cases "loop_body e t p x s")
    with True "1.prems" have r: "r = None" and rest: "batch_loop e t p x s1 = (None, s')"
      by (cases r; simp add: batch_loop.simps [of e t p x s])+
    show ?thesis
      using "1.IH" [OF True b [symmetric] r rest] .
  qed
qed

lemma set_update_keys: "fst ` set (AList.update k v al) = insert k (fst ` set al)"
  by (induction al) auto

lemma covers_init: "covers (token ` set ns) (init_state c w ns)"
  by (cases ns) (auto simp: covers_def init_state_def)

lemma covers_step:
  assumes "covers T s" and "loop_body e t p x s = (None, s')"
  shows "covers T s'"
proof -
  from loop_body_None [OF assms(2)] consider
    (admit) n sid where "next_notification s = Some n"
      "open_streams s' = open_streams s @ [\<lparr>stream_id = sid, rs_token = token n\<rparr>]"
      "next_notification s' = fst (next_of (notification_iterator s))"
      "notification_iterator s' = snd (next_of (notification_iterator s))"
      "results s' = results s"
  | (drain) ps rest result where "open_streams s = ps # rest" "open_streams s' = rest"
      "next_notification s' = next_notification s"
      "notification_iterator s' = notification_iterator s"
      "results s' = AList.update (rs_token ps) result (results s)"
    by blast
  then show ?thesis
  proof cases
    case admit
    with assms(1) show ?thesis
      by (cases "notification_iterator s") (auto simp: covers_def)
  next
    case drain
    with assms(1) show ?thesis
      unfolding covers_def by (simp add: set_update_keys distinct_update)
  qed
qed

lemma batch_loop_covers:
  assumes "batch_loop e t p x (init_state c w ns) = (None, s')"
  shows "fst ` set (results s') = token ` set ns \<and> distinct (map fst (results s'))"
proof -
  have run: "run_steps e t p x (remaining (init_state c w ns)) (init_state c w ns) = (None, s')"
    using assms batch_loop_run_steps [of "init_state c w ns"] by simp
  have "covers (token ` set ns) s'"
  proof (rule run_steps_invariant_ok [where I = "covers (token ` set ns)", OF _ _ run])
    show "covers (token ` set ns) (init_state c w ns)"
      by (rule covers_init)
  next
    fix s s'
    assume "covers (token ` set ns) s" and "loop_body e t p x s = (None, s')"
    then show "covers (token ` set ns) s'"
      by (rule covers_step)
  qed
  moreover have "\<not> loop_cond s'"
    using assms by (rule batch_loop_exit)
  ultimately show ?thesis
    by (auto simp: covers_def loop_cond_def)
qed

section \<open>The batch is complete\<close>

text \<open>
  C1. \<open>send_notification_batch\<close> returns either an exception, and then no dictionary, or
  a dictionary with exactly one entry for each distinct token of the input.
\<close>

theorem send_notification_batch_complete:
  assumes "send_notification_batch e c w ns topic priority expiration = (Inr res, c', w')"
  shows "fst ` set res = token ` set ns \<and> distinct (map fst res)
         \<and> length res = card (token ` set ns)"
proof -
  obtain r w1 where c: "connect e w = (r, w1)"
    by (cases "connect e w")
  obtain x s' where b: "batch_loop e topic priority expiration (init_state c w1 ns) = (x, s')"
    by (cases "batch_loop e topic priority expiration (init_state c w1 ns)")
  from assms c have "\<exists>u. r = Inr u"
    by (cases r) (simp_all add: send_notification_batch_def)
  with assms c b have "x = None"
    by (cases x) (auto simp: send_notification_batch_def)
  with assms c b \<open>\<exists>u. r = Inr u\<close>
  have run: "batch_loop e topic priority expiration (init_state c w1 ns) = (None, s')"
    and res: "res = results s'"
    by (auto simp: send_notification_batch_def)
  have "fst ` set (results s') = token ` set ns \<and> distinct (map fst (results s'))"
    using run by (rule batch_loop_covers)
  then have k: "fst ` set res = token ` set ns" and d: "distinct (map fst res)"
    using res by simp_all
  have "length res = card (fst ` set res)"
    using distinct_card [OF d] by simp
  with k d show ?thesis by simp
qed

theorem send_notification_batch_complete_witness:
  \<open>send_notification_batch
       (scripted connects (\<lambda>k. 2) (answers 410 ''{"reason":"Unregistered"}''))
       init_client peer0 three ''com.example'' Immediate None
     = (Inr [(''a1'', JString ''Unregistered''), (''b2'', JString ''Unregistered'')],
        \<lparr>max_concurrent_streams = Some 2, previous_server_max_concurrent_streams = Some 2\<rparr>,
        \<lparr>attempts = 1, reads = 6, opened = 3\<rparr>)
   \<and> length three = 3 \<and> card (token ` set three) = 2\<close>
proof -
  have run: \<open>send_notification_batch
       (scripted connects (\<lambda>k. 2) (answers 410 ''{"reason":"Unregistered"}''))
       init_client peer0 three ''com.example'' Immediate None
     = (Inr [(''a1'', JString ''Unregistered''), (''b2'', JString ''Unregistered'')],
        \<lparr>max_concurrent_streams = Some 2, previous_server_max_concurrent_streams = Some 2\<rparr>,
        \<lparr>attempts = 1, reads = 6, opened = 3\<rparr>)\<close>
    by code_simp
  have "length [(''a1'', JString ''Unregistered''), (''b2'', JString ''Unregistered'')]
        = card (token ` set three)"
    using send_notification_batch_complete [OF run] by (elim conjE)
  then have "card (token ` set three) = 2"
    by simp
  moreover have "length three = 3"
    by (simp add: three_def to_tokens_def)
  ultimately show ?thesis
    using run by (intro conjI)
qed

section \<open>Open streams and the limit\<close>

lemma loop_body_limit:
  assumes "client_ok (bs_client s)" and "loop_body e t p x s = (r, s')"
  shows "client_ok (bs_client s')
       \<and> (\<exists>m. max_concurrent_streams (bs_client s') = Some m \<and> 1 \<le> m \<and> m \<le> 1000)"
  using assms loop_body_client [OF assms(2)]
  by (simp add: client_ok_update_limit update_limit_range)

lemma loop_body_open:
  assumes "loop_body e t p x s = (r, s')"
    and "max_concurrent_streams (bs_client s') = Some m"
  shows "(int (length (open_streams s)) \<le> m \<longrightarrow> int (length (open_streams s')) \<le> m)
       \<and> (m \<le> int (length (open_streams s)) \<longrightarrow>
            length (open_streams s') \<le> length (open_streams s)
            \<and> (r = None \<longrightarrow> length (open_streams s') + 1 = length (open_streams s)))
       \<and> length (open_streams s') \<le> length (open_streams s) + 1"
proof (cases r)
  case None
  with assms(1) have "loop_body e t p x s = (None, s')"
    by simp
  from loop_body_None [OF this] assms(2) show ?thesis
    using None by auto
next
  case (Some err)
  with assms(1) have "loop_body e t p x s = (Some err, s')"
    by simp
  from loop_body_Some [OF this] show ?thesis
    using Some by auto
qed

lemma bounded_step:
  assumes "bounded s" and "loop_body e t p x s = (r, s')"
  shows "bounded s'"
proof -
  from assms have ok: "client_ok (bs_client s)" and le: "length (open_streams s) \<le> 1000"
    by (simp_all add: bounded_def)
  from loop_body_limit [OF ok assms(2)] obtain m where
    ok': "client_ok (bs_client s')" and m: "max_concurrent_streams (bs_client s') = Some m"
    and "1 \<le> m" "m \<le> 1000"
    by blast
  from loop_body_open [OF assms(2) m] le \<open>m \<le> 1000\<close>
  have "length (open_streams s') \<le> 1000"
    by (cases "int (length (open_streams s)) \<le> m") auto
  with ok' show ?thesis
    by (simp add: bounded_def)
qed

lemma bounded_init: "client_ok c \<Longrightarrow> bounded (init_state c w ns)"
  by (simp add: bounded_def init_state_def)

text \<open>
  C2, as the claim states it, fails: with three streams open under the limit 3, the
  peer lowers the limit to 1; the fourth iteration drains one stream and leaves two
  open under the limit 1.
\<close>

theorem open_streams_exceed_lowered_limit:
  "fst after_four = None
   \<and> max_concurrent_streams (bs_client (snd after_four)) = Some 1
   \<and> length (open_streams (snd after_four)) = 2
   \<and> \<not> int (length (open_streams (snd after_four))) \<le> 1"
  by code_simp

text \<open>
  C2, amended. In every state the loop reaches, at most 1000 streams are open, and for
  the iteration that follows, with \<open>m\<close> the effective limit it refreshes: \<open>m\<close> is between
  1 and 1000; if at most \<open>m\<close> streams are open before the iteration, at most \<open>m\<close> are open
  after it; and if \<open>m\<close> or more are open before it, also when the peer has lowered the
  limit below the number of open streams, the iteration admits nothing and, unless it
  raises, drains one stream.
\<close>

theorem admission_bound:
  assumes "client_ok c"
    and "s = snd (run_steps e t p x n (init_state c w ns))"
    and "loop_body e t p x s = (r, s')"
  shows "length (open_streams s) \<le> 1000
       \<and> (\<exists>m. max_concurrent_streams (bs_client s') = Some m \<and> 1 \<le> m \<and> m \<le> 1000
            \<and> (int (length (open_streams s)) \<le> m \<longrightarrow> int (length (open_streams s')) \<le> m)
            \<and> (m \<le> int (length (open_streams s)) \<longrightarrow>
                 length (open_streams s') \<le> length (open_streams s)
                 \<and> (r = None \<longrightarrow> length (open_streams s') + 1 = length (open_streams s))))"
proof -
  have "bounded s"
    unfolding assms(2)
  proof (rule run_steps_invariant [where I = bounded])
    show "bounded (init_state c w ns)"
      using assms(1) by (rule bounded_init)
  next
    fix s r s'
    assume "bounded s" and "loop_body e t p x s = (r, s')"
    then show "bounded s'"
      by (rule bounded_step)
  qed
  then have ok: "client_ok (bs_client s)" and le: "length (open_streams s) \<le> 1000"
    by (simp_all add: bounded_def)
  from loop_body_limit [OF ok assms(3)] obtain m where
    m: "max_concurrent_streams (bs_client s') = Some m" and r: "1 \<le> m" "m \<le> 1000"
    by blast
  from loop_body_open [OF assms(3) m] m r le show ?thesis
    by simp
qed

theorem admission_bound_witness:
  "client_ok init_client
   \<and> loop_body (scripted connects lowering ok200) ''com.example'' Immediate None after_three
       = (None, snd after_four)
   \<and> length (open_streams after_three) = 3
   \<and> max_concurrent_streams (bs_client (snd after_four)) = Some 1
   \<and> length (open_streams (snd after_four)) = 2"
proof -
  have ok: "client_ok init_client"
    by (simp add: client_ok_def init_client_def)
  have s: "after_three =
     snd (run_steps (scripted connects lowering ok200) ''com.example'' Immediate None 3
            (init_state init_client peer0 four))"
    by (rule after_three_def)
  have b: "loop_body (scripted connects lowering ok200) ''com.example'' Immediate None after_three
       = (None, snd after_four)"
    by code_simp
  have l: "length (open_streams after_three) = 3"
    by code_simp
  have m: "max_concurrent_streams (bs_client (snd after_four)) = Some 1"
    by code_simp
  from admission_bound [OF ok s b] m l have "length (open_streams (snd after_four)) + 1 = 3"
    by simp
  with ok b l m show ?thesis
    by simp
qed

section \<open>Draining in submission order\<close>

lemma submitted_append: "submitted (cs @ ds) = submitted cs @ submitted ds"
  by (induction cs rule: submitted.induct) simp_all

lemma drained_append: "drained (cs @ ds) = drained cs @ drained ds"
  by (induction cs rule: drained.induct) simp_all

lemma fifo_init: "fifo (init_state c w ns)"
  by (simp add: fifo_def init_state_def)

lemma fifo_step:
  assumes "fifo s" and "loop_body e t p x s = (r, s')"
  shows "fifo s'"
proof (cases r)
  case None
  with assms(2) have "loop_body e t p x s = (None, s')"
    by simp
  from loop_body_None [OF this] assms(1) show ?thesis
    by (auto simp: fifo_def submitted_append drained_append)
next
  case (Some err)
  with assms(2) have "loop_body e t p x s = (Some err, s')"
    by simp
  from loop_body_Some [OF this] assms(1) show ?thesis
    by (auto simp: fifo_def submitted_append drained_append)
qed

lemma loop_body_drain:
  assumes "loop_body e t p x s = (r, s')" and "calls s' = calls s @ [Drain i]"
  shows "open_streams s \<noteq> [] \<and> i = stream_id (hd (open_streams s))
       \<and> open_streams s' = tl (open_streams s)"
proof (cases r)
  case None
  with assms(1) have "loop_body e t p x s = (None, s')"
    by simp
  from loop_body_None [OF this] assms(2) show ?thesis
    by auto
next
  case (Some err)
  with assms(1) have "loop_body e t p x s = (Some err, s')"
    by simp
  from loop_body_Some [OF this] assms(2) show ?thesis
    by auto
qed

text \<open>
  C3. In every state the loop reaches, the streams drained so far are, in order, the
  first of the streams submitted so far, and the open streams are the rest; a drain in
  the iteration that follows is on the oldest submitted stream not yet drained; and when
  the loop ends normally the streams were drained in the order they were submitted. The
  transport is arbitrary, so this holds whatever order it completes the streams in.
\<close>

theorem drains_in_submission_order:
  assumes "s = snd (run_steps e t p x n (init_state c w ns))"
  shows "submitted (calls s) = drained (calls s) @ map stream_id (open_streams s)
       \<and> (\<forall>r s' i. loop_body e t p x s = (r, s') \<longrightarrow> calls s' = calls s @ [Drain i] \<longrightarrow>
             length (drained (calls s)) < length (submitted (calls s))
             \<and> i = submitted (calls s) ! length (drained (calls s)))
       \<and> (\<forall>s'. batch_loop e t p x (init_state c w ns) = (None, s') \<longrightarrow>
             drained (calls s') = submitted (calls s'))"
proof -
  have inv: "fifo (snd (run_steps e t p x k (init_state c w ns)))" for k
  proof (rule run_steps_invariant [where I = fifo])
    show "fifo (init_state c w ns)"
      by (rule fifo_init)
  next
    fix s r s'
    assume "fifo s" and "loop_body e t p x s = (r, s')"
    then show "fifo s'"
      by (rule fifo_step)
  qed
  have first: "submitted (calls s) = drained (calls s) @ map stream_id (open_streams s)"
    using inv [of n] by (simp add: fifo_def assms)
  have second: "length (drained (calls s)) < length (submitted (calls s))
      \<and> i = submitted (calls s) ! length (drained (calls s))"
    if "loop_body e t p x s = (r, s')" and "calls s' = calls s @ [Drain i]" for r s' i
  proof -
    from loop_body_drain [OF that] have ne: "open_streams s \<noteq> []"
      and i: "i = stream_id (hd (open_streams s))"
      by simp_all
    from ne obtain ps rest where "open_streams s = ps # rest"
      by (cases "open_streams s") auto
    with first i show ?thesis
      by (simp add: nth_append)
  qed
  have third: "drained (calls s') = submitted (calls s')"
    if "batch_loop e t p x (init_state c w ns) = (None, s')" for s'
  proof -
    have "s' = snd (run_steps e t p x (remaining (init_state c w ns)) (init_state c w ns))"
      using that batch_loop_run_steps [of "init_state c w ns" "remaining (init_state c w ns)" e t p x]
      by simp
    then have "fifo s'"
      using inv by simp
    moreover have "\<not> loop_cond s'"
      using that by (rule batch_loop_exit)
    ultimately show ?thesis
      by (simp add: fifo_def loop_cond_def)
  qed
  from first second third show ?thesis
    by blast
qed

theorem drains_in_submission_order_witness:
  "fst abc_run = None
   \<and> calls (snd abc_run) = [Submit 1, Submit 3, Submit 5, Drain 1, Drain 3, Drain 5]
   \<and> submitted (calls (snd abc_run)) = [1, 3, 5]
   \<and> drained (calls (snd abc_run)) = [1, 3, 5]"
proof -
  have f: "fst abc_run = None"
    by code_simp
  have cs: "calls (snd abc_run) = [Submit 1, Submit 3, Submit 5, Drain 1, Drain 3, Drain 5]"
    by code_simp
  have run: "batch_loop (scripted connects (\<lambda>k. 3) ok200) ''com.example'' Immediate None
       (init_state init_client peer0 (to_tokens [''a1'', ''b2'', ''c3''])) = (None, snd abc_run)"
    using f by (simp add: abc_run_def prod_eq_iff)
  have "drained (calls (snd abc_run)) = submitted (calls (snd abc_run))"
    using drains_in_submission_order [OF refl, of "scripted connects (\<lambda>k. 3) ok200"
        "''com.example''" Immediate None 3 init_client peer0 "to_tokens [''a1'', ''b2'', ''c3'']"]
      run
    by blast
  with f cs show ?thesis
    by simp
qed

section \<open>The loop terminates\<close>

lemma send_notification_async_error:
  "send_notification_async e tok n t p x w = (Inl err, w') \<Longrightarrow>
     (\<exists>msg. err = CodecError msg) \<or> (\<exists>msg. err = TransportError msg)"
  by (auto simp: send_notification_async_def Let_def split: sum.splits prod.splits)

lemma getitem_error: "getitem d k = Inl err \<Longrightarrow> err = KeyError k \<or> err = TypeError"
  by (cases d) (auto split: option.splits)

lemma get_notification_result_error:
  "get_notification_result e sid w = (Inl err, w') \<Longrightarrow>
     err \<noteq> IndexError \<and> err \<noteq> AttributeError"
  by (auto simp: get_notification_result_def interpret_response_def
      split: sum.splits prod.splits if_splits dest: getitem_error)

lemma loop_body_no_index_error:
  assumes "client_ok (bs_client s)" and "loop_cond s"
  shows "fst (loop_body e t p x s) \<noteq> Some IndexError
       \<and> fst (loop_body e t p x s) \<noteq> Some AttributeError"
proof -
  obtain raw w1 where r: "conn_remote_max_concurrent_streams e (bs_world s) = (raw, w1)"
    by (cases "conn_remote_max_concurrent_streams e (bs_world s)")
  from update_limit_range [OF assms(1), of raw] obtain m where
    m: "max_concurrent_streams (update_limit raw (bs_client s)) = Some m" and "1 \<le> m"
    by blast
  show ?thesis
  proof (cases "next_notification s")
    case None
    with assms(2) obtain ps rest where "open_streams s = ps # rest"
      by (cases "open_streams s") (auto simp: loop_cond_def)
    with None r show ?thesis
      by (auto simp: loop_body_def update_max_concurrent_streams_def
          should_send_notification_def Let_def
          split: prod.splits sum.splits dest: get_notification_result_error)
  next
    case (Some n)
    show ?thesis
    proof (cases "int (length (open_streams s)) < m")
      case True
      with Some r m show ?thesis
        by (auto simp: loop_body_def update_max_concurrent_streams_def
            should_send_notification_def Let_def
            split: prod.splits sum.splits dest: send_notification_async_error)
    next
      case False
      with \<open>1 \<le> m\<close> obtain ps rest where "open_streams s = ps # rest"
        by (cases "open_streams s") auto
      with False Some r m show ?thesis
        by (auto simp: loop_body_def update_max_concurrent_streams_def
            should_send_notification_def Let_def
            split: prod.splits sum.splits dest: get_notification_result_error)
    qed
  qed
qed

lemma loop_body_one_call:
  "loop_body e t p x s = (None, s') \<Longrightarrow> length (calls s') = length (calls s) + 1"
  using loop_body_None [of e t p x s s'] by auto

text \<open>
  C6. Every call on the transport returns in this model, and the loop then ends within
  \<open>remaining s\<close> iterations, two for each notification not yet submitted and one for
  each open stream. It ends normally exactly in a state with no next notification and
  no open stream. In an iteration the refreshed limit is at least 1, so the iteration
  never pops an empty queue: it raises what a transport or codec call raised, or it
  admits one notification or drains one stream, which lowers \<open>remaining\<close> by one.
\<close>

theorem batch_loop_terminates:
  assumes "client_ok (bs_client s)"
  shows "batch_loop e t p x s = run_steps e t p x (remaining s) s
       \<and> (\<not> loop_cond s \<longrightarrow> batch_loop e t p x s = (None, s))
       \<and> (fst (batch_loop e t p x s) = None \<longrightarrow>
            next_notification (snd (batch_loop e t p x s)) = None
            \<and> open_streams (snd (batch_loop e t p x s)) = [])
       \<and> (loop_cond s \<longrightarrow>
            (\<exists>m. max_concurrent_streams (bs_client (snd (loop_body e t p x s))) = Some m
                 \<and> 1 \<le> m)
            \<and> fst (loop_body e t p x s) \<noteq> Some IndexError
            \<and> fst (loop_body e t p x s) \<noteq> Some AttributeError
            \<and> (fst (loop_body e t p x s) = None \<longrightarrow>
                 remaining (snd (loop_body e t p x s)) + 1 = remaining s
                 \<and> length (calls (snd (loop_body e t p x s))) = length (calls s) + 1))"
proof -
  have a: "batch_loop e t p x s = run_steps e t p x (remaining s) s"
    using batch_loop_run_steps [of s "remaining s" e t p x] by simp
  have b: "batch_loop e t p x s = (None, s)" if "\<not> loop_cond s"
    using that by (simp add: batch_loop.simps)
  have c: "next_notification (snd (batch_loop e t p x s)) = None
      \<and> open_streams (snd (batch_loop e t p x s)) = []"
    if "fst (batch_loop e t p x s) = None"
  proof -
    from that have "batch_loop e t p x s = (None, snd (batch_loop e t p x s))"
      by (simp add: prod_eq_iff)
    then have "\<not> loop_cond (snd (batch_loop e t p x s))"
      by (rule batch_loop_exit)
    then show ?thesis
      by (simp add: loop_cond_def)
  qed
  obtain r s' where body: "loop_body e t p x s = (r, s')"
    by (cases "loop_body e t p x s")
  have d: "\<exists>m. max_concurrent_streams (bs_client (snd (loop_body e t p x s))) = Some m \<and> 1 \<le> m"
    using loop_body_limit [OF assms body] body by auto
  have f: "remaining (snd (loop_body e t p x s)) + 1 = remaining s
      \<and> length (calls (snd (loop_body e t p x s))) = length (calls s) + 1"
    if "fst (loop_body e t p x s) = None"
  proof -
    from that body have "loop_body e t p x s = (None, s')"
      by simp
    from loop_body_decreases [OF this] loop_body_one_call [OF this] body show ?thesis
      by simp
  qed
  from a b c d f loop_body_no_index_error [OF assms] show ?thesis
    by blast
qed

theorem batch_loop_terminates_witness:
  "client_ok (bs_client zero_start) \<and> remaining zero_start = 4
   \<and> fst (batch_loop (scripted connects (\<lambda>k. 0) ok200) ''com.example'' Immediate None zero_start)
       = None
   \<and> results (snd (batch_loop (scripted connects (\<lambda>k. 0) ok200) ''com.example'' Immediate None
         zero_start))
       = [(''a1'', JString ''Success''), (''b2'', JString ''Success'')]
   \<and> max_concurrent_streams (bs_client (snd (batch_loop (scripted connects (\<lambda>k. 0) ok200)
         ''com.example'' Immediate None zero_start))) = Some 1"
proof -
  have ok: "client_ok (bs_client zero_start)"
    by (simp add: zero_start_def init_state_def client_ok_def init_client_def)
  have rem: "remaining zero_start = 4"
    by (simp add: zero_start_def init_state_def remaining_def to_tokens_def)
  have run: "run_steps (scripted connects (\<lambda>k. 0) ok200) ''com.example'' Immediate None 4 zero_start
      = (None,
         \<lparr>bs_client = \<lparr>max_concurrent_streams = Some 1,
                        previous_server_max_concurrent_streams = Some 0\<rparr>,
          bs_world = \<lparr>attempts = 0, reads = 4, opened = 2\<rparr>,
          notification_iterator = [], next_notification = None, open_streams = [],
          results = [(''a1'', JString ''Success''), (''b2'', JString ''Success'')],
          calls = [Submit 1, Drain 1, Submit 3, Drain 3]\<rparr>)"
    by code_simp
  from batch_loop_terminates [OF ok, of "scripted connects (\<lambda>k. 0) ok200" "''com.example''"
      Immediate None]
  have "batch_loop (scripted connects (\<lambda>k. 0) ok200) ''com.example'' Immediate None zero_start
      = run_steps (scripted connects (\<lambda>k. 0) ok200) ''com.example'' Immediate None
          (remaining zero_start) zero_start"
    by (elim conjE)
  with rem run ok show ?thesis
    by simp
qed

end
